theory Spec2Isabelle
  imports Complex_Main "HOL-Library.Word"
begin

section \<open>The GASAL2 single-pair wrapper (\<open>gasal_py_nobatch.cpp\<close>)\<close>

text \<open>
  The wrapper exposes one class, \<open>GasalAligner\<close>, with a constructor and one method
  \<open>align\<close>. The method sanitises its two byte strings, checks their lengths, fills slot 0
  of the library's host batch, submits one alignment, polls until the library no longer
  reports \<open>-1\<close>, and copies the slot's result into a \<open>PAlign\<close>.

  C++ \<open>std::string\<close> is a sequence of bytes: \<open>string\<close> here. \<open>uint32_t\<close>, \<open>uint8_t\<close> and
  \<open>int\<close> are words of 32, 8 and 32 bits; an \<open>int\<close> is read with \<open>sint\<close>.
\<close>

type_synonym u8 = "8 word"
type_synonym u32 = "32 word"
type_synonym cint = "32 word"

subsection \<open>Sanitisation (the lambda \<open>sanitize\<close> in \<open>align\<close>)\<close>

text \<open>
  \<open>std::toupper\<close> on an \<open>unsigned char\<close>, in the "C" locale: the 26 lower-case ASCII
  letters (97..122) move down by 32, every other byte is returned as it is.
\<close>

definition toupper :: "char \<Rightarrow> char" where
  "toupper c =
     (if 97 \<le> (of_char c :: nat) \<and> (of_char c :: nat) \<le> 122
      then char_of ((of_char c :: nat) - 32) else c)"

text \<open>The conditional expression pushed by the loop body:
  \<open>(u=='A'||u=='C'||u=='G'||u=='T'||u=='N') ? u : 'N'\<close>.\<close>

definition acgtn_or_N :: "char \<Rightarrow> char" where
  "acgtn_or_N u =
     (if u = CHR ''A'' \<or> u = CHR ''C'' \<or> u = CHR ''G'' \<or> u = CHR ''T'' \<or> u = CHR ''N''
      then u else CHR ''N'')"

text \<open>The range-for loop: \<open>y\<close> starts empty and every byte of \<open>x\<close> pushes one byte.\<close>

fun sanitize_loop :: "string \<Rightarrow> string \<Rightarrow> string" where
  "sanitize_loop y [] = y"
| "sanitize_loop y (c # cs) = sanitize_loop (y @ [acgtn_or_N (toupper c)]) cs"

definition sanitize :: "string \<Rightarrow> string" where
  "sanitize x = sanitize_loop [] x"

subsection \<open>Packed byte count (the lambda \<open>packed_bytes_rounded\<close>)\<close>

text \<open>
  \<open>uint32_t bytes = (L + 3u) / 4u; return int(((bytes + 7u) / 8u) * 8u);\<close>
  All arithmetic is on \<open>uint32_t\<close> and wraps; the result is converted to \<open>int\<close>.
\<close>

definition packed_bytes_rounded :: "u32 \<Rightarrow> cint" where
  "packed_bytes_rounded L = (let bytes = (L + 3) div 4 in ((bytes + 7) div 8) * 8)"

text \<open>The specification's formula, on unbounded numbers: \<open>ceil(L/4)\<close>, then rounded up to
  the next multiple of 8.\<close>

definition ceil_div :: "nat \<Rightarrow> nat \<Rightarrow> nat" where
  "ceil_div a b = nat \<lceil>real a / real b\<rceil>"

definition round_up_to_8 :: "nat \<Rightarrow> nat" where
  "round_up_to_8 b = ceil_div b 8 * 8"

definition spec_packed_len :: "nat \<Rightarrow> nat" where
  "spec_packed_len L = round_up_to_8 (ceil_div L 4)"

subsection \<open>Declarations of the library header\<close>

text \<open>
  Modelled from the spec: \<open>gasal_header.h\<close> belongs to the GASAL2 library and is not among
  the sources. The wrapper names the enumerators \<open>SEMI_GLOBAL\<close>, \<open>WITH_TB\<close>, \<open>QUERY\<close> and
  \<open>TARGET\<close>; the other enumerators stand for the alternatives the specification speaks
  of (global and local alignment; score only or with start positions; no free end, the
  target's, both). Of the structures, only the members the wrapper reads or writes are kept;
  whatever else the library keeps in a storage is the member \<open>lib_private\<close>.
\<close>

datatype algo_type = GLOBAL | SEMI_GLOBAL | LOCAL

datatype comp_start = WITHOUT_START | WITH_START | WITH_TB

datatype data_source = NONE | QUERY | TARGET | BOTH

record Parameters =
  algo :: algo_type
  start_pos :: comp_start
  semiglobal_skipping_head :: data_source
  semiglobal_skipping_tail :: data_source

record gasal_subst_scores =
  match :: cint
  mismatch :: cint
  gap_open :: cint
  gap_extend :: cint

text \<open>Arrays owned by the library are maps from the index to the element.\<close>

record gasal_res_t =
  aln_score :: "nat \<Rightarrow> cint"
  query_batch_start :: "nat \<Rightarrow> cint"
  query_batch_end :: "nat \<Rightarrow> cint"
  target_batch_start :: "nat \<Rightarrow> cint"
  target_batch_end :: "nat \<Rightarrow> cint"
  n_cigar_ops :: "nat \<Rightarrow> u32"
  cigar :: "nat \<Rightarrow> u8"

record 'x gasal_gpu_storage_t =
  current_n_alns :: u32
  host_query_batch_offsets :: "nat \<Rightarrow> u32"
  host_target_batch_offsets :: "nat \<Rightarrow> u32"
  host_query_batch_lens :: "nat \<Rightarrow> u32"
  host_target_batch_lens :: "nat \<Rightarrow> u32"
  host_res :: gasal_res_t
  lib_private :: 'x

text \<open>
  The four library functions \<open>align\<close> calls. Their bodies are not in the repository, so
  they are a parameter of the model: each takes the storage it is handed and returns the
  storage it leaves, with its return value if it has one.
\<close>

record 'x gasal_lib =
  gasal_host_batch_fill ::
    "'x gasal_gpu_storage_t \<Rightarrow> u32 \<Rightarrow> string \<Rightarrow> u32 \<Rightarrow> data_source
       \<Rightarrow> 'x gasal_gpu_storage_t \<times> u32"
  gasal_op_fill ::
    "'x gasal_gpu_storage_t \<Rightarrow> u8 \<Rightarrow> u32 \<Rightarrow> data_source \<Rightarrow> 'x gasal_gpu_storage_t"
  gasal_aln_async ::
    "'x gasal_gpu_storage_t \<Rightarrow> cint \<Rightarrow> cint \<Rightarrow> cint \<Rightarrow> Parameters
       \<Rightarrow> 'x gasal_gpu_storage_t"
  gasal_is_aln_async_done :: "'x gasal_gpu_storage_t \<Rightarrow> 'x gasal_gpu_storage_t \<times> cint"

text \<open>
  The steps of the calling thread that can be seen from outside the wrapper, in the order
  they are made: the calls into the library, with their arguments, and the steps in which
  the thread gives up the processor (\<open>std::this_thread::yield\<close>, a sleep, a blocking wait).
  The source has no step of the last kind, so no definition below produces one.
\<close>

datatype lib_call =
  Host_batch_fill u32 string u32 data_source
| Op_fill u8 u32 data_source
| Aln_async cint cint cint Parameters
| Is_aln_async_done
| Thread_yield

type_synonym 'x run = "'x gasal_gpu_storage_t \<times> lib_call list"

definition call_host_batch_fill ::
  "'x gasal_lib \<Rightarrow> 'x run \<Rightarrow> u32 \<Rightarrow> string \<Rightarrow> u32 \<Rightarrow> data_source \<Rightarrow> 'x run \<times> u32" where
  "call_host_batch_fill lib r idx dat sz SRC =
     (case gasal_host_batch_fill lib (fst r) idx dat sz SRC of
        (stor', off) \<Rightarrow> ((stor', snd r @ [Host_batch_fill idx dat sz SRC]), off))"

definition call_op_fill ::
  "'x gasal_lib \<Rightarrow> 'x run \<Rightarrow> u8 \<Rightarrow> u32 \<Rightarrow> data_source \<Rightarrow> 'x run" where
  "call_op_fill lib r dat idx SRC =
     (gasal_op_fill lib (fst r) dat idx SRC, snd r @ [Op_fill dat idx SRC])"

definition call_aln_async ::
  "'x gasal_lib \<Rightarrow> 'x run \<Rightarrow> cint \<Rightarrow> cint \<Rightarrow> cint \<Rightarrow> Parameters \<Rightarrow> 'x run" where
  "call_aln_async lib r q_bytes t_bytes n_alns params =
     (gasal_aln_async lib (fst r) q_bytes t_bytes n_alns params,
      snd r @ [Aln_async q_bytes t_bytes n_alns params])"

definition call_is_aln_async_done :: "'x gasal_lib \<Rightarrow> 'x run \<Rightarrow> 'x run \<times> cint" where
  "call_is_aln_async_done lib r =
     (case gasal_is_aln_async_done lib (fst r) of
        (stor', rc) \<Rightarrow> ((stor', snd r @ [Is_aln_async_done]), rc))"

subsection \<open>The wrapper's own types\<close>

record PAlign =
  score :: cint
  q_beg :: cint
  q_end :: cint
  s_beg :: cint
  s_end :: cint
  cigar :: "u8 list"

text \<open>
  The members of \<open>GasalAligner\<close> (in the source their names end in an underscore);
  \<open>stor_v\<close> is the one storage \<open>stor_v_.a[0]\<close> the vector holds.
\<close>

record 'x GasalAligner =
  subst :: gasal_subst_scores
  args :: Parameters
  stor_v :: "'x gasal_gpu_storage_t"
  max_q :: cint
  max_t :: cint

datatype exn = runtime_error string

definition LengthExceeded :: exn where
  "LengthExceeded = runtime_error ''Sequence length exceeds configured max_q/max_t''"

subsection \<open>The constructor\<close>

text \<open>
  \<open>p0\<close> is the object \<open>new Parameters(0, nullptr)\<close> builds and \<open>stor0\<close> the storage
  \<open>gasal_init_gpu_storage_v(1)\<close> and \<open>gasal_init_streams\<close> set up: both are the
  library's. The constructor stores the four scores and the two limits and assigns the
  four members of the parameters.
\<close>

definition GasalAligner_ctor ::
  "Parameters \<Rightarrow> 'x gasal_gpu_storage_t \<Rightarrow> cint \<Rightarrow> cint \<Rightarrow> cint \<Rightarrow> cint \<Rightarrow> cint \<Rightarrow> cint
     \<Rightarrow> 'x GasalAligner" where
  "GasalAligner_ctor p0 stor0 m mm go ge mq mt =
     \<lparr> subst = \<lparr> match = m, mismatch = mm, gap_open = go, gap_extend = ge \<rparr>,
       args = p0 \<lparr> algo := SEMI_GLOBAL, start_pos := WITH_TB,
                  semiglobal_skipping_head := QUERY, semiglobal_skipping_tail := QUERY \<rparr>,
       stor_v = stor0, max_q = mq, max_t = mt \<rparr>"

text \<open>The default arguments \<open>max_q = 2048\<close>, \<open>max_t = 8192\<close> (the same in the C++
  signature and in the binding): \<open>None\<close> is an argument left out.\<close>

definition GasalAligner_init ::
  "Parameters \<Rightarrow> 'x gasal_gpu_storage_t \<Rightarrow> cint \<Rightarrow> cint \<Rightarrow> cint \<Rightarrow> cint
     \<Rightarrow> cint option \<Rightarrow> cint option \<Rightarrow> 'x GasalAligner" where
  "GasalAligner_init p0 stor0 m mm go ge mq mt =
     GasalAligner_ctor p0 stor0 m mm go ge
       (case mq of None \<Rightarrow> 2048 | Some v \<Rightarrow> v) (case mt of None \<Rightarrow> 8192 | Some v \<Rightarrow> v)"

subsection \<open>The method \<open>align\<close>\<close>

text \<open>
  The guard \<open>(int)q.size() > max_q_ || (int)s.size() > max_t_\<close>, applied to the
  sanitised strings. A size is a \<open>size_t\<close>; the cast to \<open>int\<close> keeps its low 32 bits and
  reads them as a signed number (what GCC, Clang and MSVC do for a value that does not fit,
  and what C++20 prescribes).
\<close>

definition size_as_int :: "string \<Rightarrow> cint" where
  "size_as_int x = of_nat (length x)"

definition length_exceeds :: "'x GasalAligner \<Rightarrow> string \<Rightarrow> string \<Rightarrow> bool" where
  "length_exceeds a q s \<longleftrightarrow>
     sint (max_q a) < sint (size_as_int q) \<or> sint (max_t a) < sint (size_as_int s)"

text \<open>Lines 70 to 80: the slot count is cleared, both sequences are handed to the library
  at index 0, and slot 0 of the four tables and the count are written.\<close>

definition mark_slot0 :: "'x gasal_lib \<Rightarrow> 'x run \<Rightarrow> string \<Rightarrow> string \<Rightarrow> 'x run" where
  "mark_slot0 lib r q s =
     (let r1 = (fst r \<lparr> current_n_alns := 0 \<rparr>, snd r) in
      case call_host_batch_fill lib r1 0 q (of_nat (length q)) QUERY of (r2, q_off) \<Rightarrow>
      case call_host_batch_fill lib r2 0 s (of_nat (length s)) TARGET of (r3, t_off) \<Rightarrow>
      let stor3 = fst r3;
          stor4 = stor3 \<lparr> host_query_batch_offsets := (host_query_batch_offsets stor3)(0 := q_off) \<rparr>;
          stor5 = stor4 \<lparr> host_target_batch_offsets := (host_target_batch_offsets stor4)(0 := t_off) \<rparr>;
          stor6 = stor5 \<lparr> host_query_batch_lens := (host_query_batch_lens stor5)(0 := of_nat (length q)) \<rparr>;
          stor7 = stor6 \<lparr> host_target_batch_lens := (host_target_batch_lens stor6)(0 := of_nat (length s)) \<rparr>;
          stor8 = stor7 \<lparr> current_n_alns := 1 \<rparr>
      in (stor8, snd r3))"

text \<open>Lines 82 and 83: the two calls of \<open>gasal_op_fill\<close>.\<close>

definition fill_slot0 :: "'x gasal_lib \<Rightarrow> 'x run \<Rightarrow> string \<Rightarrow> string \<Rightarrow> 'x run" where
  "fill_slot0 lib r q s =
     call_op_fill lib (call_op_fill lib (mark_slot0 lib r q s) 0 0 QUERY) 0 0 TARGET"

text \<open>Lines 85 to 94: the byte counts are computed from the lengths now in slot 0 and
  the batch is submitted with \<open>n_alns = 1\<close>.\<close>

definition submit_slot0 :: "'x gasal_lib \<Rightarrow> Parameters \<Rightarrow> 'x run \<Rightarrow> 'x run" where
  "submit_slot0 lib params r =
     (let q_bytes = packed_bytes_rounded (host_query_batch_lens (fst r) 0);
          t_bytes = packed_bytes_rounded (host_target_batch_lens (fst r) 0)
      in call_aln_async lib r q_bytes t_bytes 1 params)"

text \<open>Line 95: \<open>while (gasal_is_aln_async_done(&stor) == -1) {}\<close>. The loop has no
  bound, so it is a partial function: \<open>None\<close> is a loop that never ends.\<close>

partial_function (option) wait_done :: "'x gasal_lib \<Rightarrow> 'x run \<Rightarrow> 'x run option" where
  "wait_done lib r =
     (case call_is_aln_async_done lib r of
        (r', rc) \<Rightarrow> if rc = - 1 then wait_done lib r' else Some r')"

declare wait_done.simps [code]

text \<open>Lines 97 to 111: the members of slot 0 of the result, and the \<open>n\<close> bytes that start
  at \<open>R.cigar + c0\<close>.\<close>

definition extract_slot0 :: "'x gasal_gpu_storage_t \<Rightarrow> PAlign" where
  "extract_slot0 stor =
     (let R = host_res stor; idx = 0;
          c0 = host_query_batch_offsets stor idx;
          n = n_cigar_ops R idx
      in \<lparr> score = aln_score R idx,
           q_beg = query_batch_start R idx, q_end = query_batch_end R idx,
           s_beg = target_batch_start R idx, s_end = target_batch_end R idx,
           cigar = map (\<lambda>i. gasal_res_t.cigar R (unat c0 + i)) [0..<unat n] \<rparr>)"

text \<open>
  The whole method. Its value is the aligner it leaves, the library calls it made and
  either the exception it threw or the \<open>PAlign\<close> it returned; \<open>None\<close> when the wait
  never ends.
\<close>

definition align ::
  "'x gasal_lib \<Rightarrow> 'x GasalAligner \<Rightarrow> string \<Rightarrow> string
     \<Rightarrow> ('x GasalAligner \<times> lib_call list \<times> (exn + PAlign)) option" where
  "align lib a q_in s_in =
     (let q = sanitize q_in; s = sanitize s_in in
      if length_exceeds a q s then Some (a, [], Inl LengthExceeded)
      else
        case wait_done lib (submit_slot0 lib (args a) (fill_slot0 lib (stor_v a, []) q s)) of
          None \<Rightarrow> None
        | Some r \<Rightarrow> Some (a \<lparr> stor_v := fst r \<rparr>, snd r, Inr (extract_slot0 (fst r))))"

subsection \<open>Observations on a run\<close>

text \<open>The storage after \<open>k\<close> polls, each made on the storage the one before left.\<close>

fun polls :: "'x gasal_lib \<Rightarrow> nat \<Rightarrow> 'x gasal_gpu_storage_t \<Rightarrow> 'x gasal_gpu_storage_t" where
  "polls lib 0 stor = stor"
| "polls lib (Suc k) stor = polls lib k (fst (gasal_is_aln_async_done lib stor))"

text \<open>The next poll on this storage returns \<open>-1\<close>.\<close>

definition pending :: "'x gasal_lib \<Rightarrow> 'x gasal_gpu_storage_t \<Rightarrow> bool" where
  "pending lib stor \<longleftrightarrow> snd (gasal_is_aln_async_done lib stor) = - 1"

text \<open>The storage \<open>align\<close> hands to the first poll: slot 0 filled and submitted.\<close>

definition submitted ::
  "'x gasal_lib \<Rightarrow> 'x GasalAligner \<Rightarrow> string \<Rightarrow> string \<Rightarrow> 'x run" where
  "submitted lib a q s = submit_slot0 lib (args a) (fill_slot0 lib (stor_v a, []) q s)"

text \<open>A call ended by an exception.\<close>

definition raises :: "('x GasalAligner \<times> lib_call list \<times> (exn + PAlign)) option \<Rightarrow> bool" where
  "raises res = (case res of Some (a, calls, Inl e) \<Rightarrow> True | _ \<Rightarrow> False)"

text \<open>The \<open>PAlign\<close> a call returned, if it returned one.\<close>

definition returned :: "('x GasalAligner \<times> lib_call list \<times> (exn + PAlign)) option \<Rightarrow> PAlign option" where
  "returned res = (case res of Some (a, calls, Inr p) \<Rightarrow> Some p | _ \<Rightarrow> None)"

text \<open>The library calls a call made, if it came back.\<close>

definition calls_made :: "('x GasalAligner \<times> lib_call list \<times> (exn + PAlign)) option \<Rightarrow> lib_call list option" where
  "calls_made res = (case res of Some (a, calls, out) \<Rightarrow> Some calls | None \<Rightarrow> None)"

text \<open>The aligner a call left, if it came back.\<close>

definition aligner_after :: "('x GasalAligner \<times> lib_call list \<times> (exn + PAlign)) option \<Rightarrow> 'x GasalAligner option" where
  "aligner_after res = (case res of Some (a, calls, out) \<Rightarrow> Some a | None \<Rightarrow> None)"

text \<open>The bytes of the library's CIGAR buffer from the offset of slot 0 on, as many as the
  list \<open>bs\<close> is long.\<close>

definition raw_cigar_bytes :: "'x gasal_gpu_storage_t \<Rightarrow> nat \<Rightarrow> u8 list" where
  "raw_cigar_bytes stor n =
     map (\<lambda>i. gasal_res_t.cigar (host_res stor) (unat (host_query_batch_offsets stor 0) + i)) [0..<n]"

text \<open>A returned \<open>PAlign\<close> shows the library's own CIGAR bytes: its list is not empty and
  is, byte for byte, what the buffer holds.\<close>

definition exposes_raw_cigar :: "'x gasal_gpu_storage_t \<Rightarrow> PAlign \<Rightarrow> bool" where
  "exposes_raw_cigar stor p \<longleftrightarrow>
     PAlign.cigar p \<noteq> [] \<and> PAlign.cigar p = raw_cigar_bytes stor (length (PAlign.cigar p))"

text \<open>A submission made with the parameters \<open>p\<close>; any other call counts as one.\<close>

fun submits_with :: "Parameters \<Rightarrow> lib_call \<Rightarrow> bool" where
  "submits_with p (Aln_async q_bytes t_bytes n_alns p') = (p' = p)"
| "submits_with p c = True"

text \<open>One call after the other on the same object; a call that throws leaves the object
  to the next one, a call that never comes back ends the sequence.\<close>

fun align_seq ::
  "'x gasal_lib \<Rightarrow> 'x GasalAligner \<Rightarrow> (string \<times> string) list
     \<Rightarrow> ('x GasalAligner \<times> lib_call list) option" where
  "align_seq lib a [] = Some (a, [])"
| "align_seq lib a (qs # rest) =
     (case align lib a (fst qs) (snd qs) of
        None \<Rightarrow> None
      | Some res \<Rightarrow>
          (case align_seq lib (fst res) rest of
             None \<Rightarrow> None
           | Some (a', calls) \<Rightarrow> Some (a', fst (snd res) @ calls)))"

text \<open>A trace in which the thread never polls twice in a row: between two polls it does
  something else (it yields).\<close>

fun yields_between_polls :: "lib_call list \<Rightarrow> bool" where
  "yields_between_polls (Is_aln_async_done # Is_aln_async_done # cs) = False"
| "yields_between_polls (c # cs) = yields_between_polls cs"
| "yields_between_polls [] = True"

subsection \<open>Small libraries, for concrete runs\<close>

text \<open>
  \<open>toy_lib\<close> keeps, as its private state, the number of polls that will still answer
  \<open>-1\<close>. Filling returns the index it was given; submitting writes a fixed result for
  slot 0 (two CIGAR bytes) and leaves two polls pending.
\<close>

definition toy_res :: gasal_res_t where
  "toy_res =
     \<lparr> aln_score = (\<lambda>i. if i = 0 then 8 else 0),
       query_batch_start = (\<lambda>i. 0),
       query_batch_end = (\<lambda>i. if i = 0 then 3 else 0),
       target_batch_start = (\<lambda>i. 0),
       target_batch_end = (\<lambda>i. if i = 0 then 3 else 0),
       n_cigar_ops = (\<lambda>i. if i = 0 then 2 else 0),
       cigar = (\<lambda>i. if i = 0 then 16 else if i = 1 then 5 else 0) \<rparr>"

definition toy_lib :: "nat gasal_lib" where
  "toy_lib =
     \<lparr> gasal_host_batch_fill = (\<lambda>stor idx dat sz SRC. (stor, idx)),
       gasal_op_fill = (\<lambda>stor dat idx SRC. stor),
       gasal_aln_async = (\<lambda>stor q_bytes t_bytes n_alns params.
          stor \<lparr> host_res := toy_res, lib_private := 2 \<rparr>),
       gasal_is_aln_async_done = (\<lambda>stor.
          if lib_private stor = 0 then (stor, 0)
          else (stor \<lparr> lib_private := lib_private stor - 1 \<rparr>, - 1)) \<rparr>"

definition toy_params :: Parameters where
  "toy_params =
     \<lparr> algo = GLOBAL, start_pos = WITHOUT_START,
       semiglobal_skipping_head = NONE, semiglobal_skipping_tail = NONE \<rparr>"

definition toy_stor :: "nat gasal_gpu_storage_t" where
  "toy_stor =
     \<lparr> current_n_alns = 7,
       host_query_batch_offsets = (\<lambda>i. 0), host_target_batch_offsets = (\<lambda>i. 0),
       host_query_batch_lens = (\<lambda>i. 0), host_target_batch_lens = (\<lambda>i. 0),
       host_res =
         \<lparr> aln_score = (\<lambda>i. 0), query_batch_start = (\<lambda>i. 0), query_batch_end = (\<lambda>i. 0),
           target_batch_start = (\<lambda>i. 0), target_batch_end = (\<lambda>i. 0),
           n_cigar_ops = (\<lambda>i. 0), cigar = (\<lambda>i. 0) \<rparr>,
       lib_private = 0 \<rparr>"

definition toy_aligner :: "nat GasalAligner" where
  "toy_aligner = GasalAligner_init toy_params toy_stor 2 (- 1) (- 2) (- 1) None None"

text \<open>
  \<open>probe_lib\<close> records, in its private state, what it is handed: each fill appends the
  slot count it finds and the length of the data, each \<open>gasal_op_fill\<close> the slot count it
  finds. Filling returns the index plus the size. Submitting writes a result whose score is
  the sum of what was recorded and of the two byte counts, whose CIGAR buffer holds its own
  indices, and leaves two polls pending.
\<close>

definition probe_res :: "nat \<Rightarrow> gasal_res_t" where
  "probe_res v =
     \<lparr> aln_score = (\<lambda>i. if i = 0 then of_nat v else 0),
       query_batch_start = (\<lambda>i. 0),
       query_batch_end = (\<lambda>i. if i = 0 then 3 else 0),
       target_batch_start = (\<lambda>i. 0),
       target_batch_end = (\<lambda>i. if i = 0 then 3 else 0),
       n_cigar_ops = (\<lambda>i. if i = 0 then 2 else 0),
       cigar = (\<lambda>i. of_nat i) \<rparr>"

definition probe_lib :: "(nat \<times> nat list) gasal_lib" where
  "probe_lib =
     \<lparr> gasal_host_batch_fill = (\<lambda>stor idx dat sz SRC.
          (stor \<lparr> lib_private :=
                    (fst (lib_private stor),
                     snd (lib_private stor) @ [unat (current_n_alns stor), length dat]) \<rparr>,
           idx + sz)),
       gasal_op_fill = (\<lambda>stor dat idx SRC.
          stor \<lparr> lib_private :=
                   (fst (lib_private stor),
                    snd (lib_private stor) @ [unat (current_n_alns stor)]) \<rparr>),
       gasal_aln_async = (\<lambda>stor q_bytes t_bytes n_alns params.
          stor \<lparr> host_res :=
                   probe_res (sum_list (snd (lib_private stor)) + unat q_bytes + unat t_bytes),
                 lib_private := (2, snd (lib_private stor)) \<rparr>),
       gasal_is_aln_async_done = (\<lambda>stor.
          if fst (lib_private stor) = 0 then (stor, 0)
          else (stor \<lparr> lib_private := (fst (lib_private stor) - 1, snd (lib_private stor)) \<rparr>,
                - 1)) \<rparr>"

definition probe_stor :: "(nat \<times> nat list) gasal_gpu_storage_t" where
  "probe_stor =
     \<lparr> current_n_alns = 7,
       host_query_batch_offsets = (\<lambda>i. 0), host_target_batch_offsets = (\<lambda>i. 0),
       host_query_batch_lens = (\<lambda>i. 0), host_target_batch_lens = (\<lambda>i. 0),
       host_res = probe_res 0,
       lib_private = (0, []) \<rparr>"

definition probe_aligner :: "(nat \<times> nat list) GasalAligner" where
  "probe_aligner = GasalAligner_init toy_params probe_stor 2 (- 1) (- 2) (- 1) None None"

section \<open>Sanitisation\<close>

lemma sanitize_loop_map:
  "sanitize_loop y x = y @ map (\<lambda>c. acgtn_or_N (toupper c)) x"
  by (induction x arbitrary: y) simp_all

lemma sanitize_map: "sanitize x = map (\<lambda>c. acgtn_or_N (toupper c)) x"
  by (simp add: sanitize_def sanitize_loop_map)

lemma length_sanitize: "length (sanitize x) = length x"
  by (simp add: sanitize_map)

lemma acgtn_or_N_range:
  "acgtn_or_N u \<in> {CHR ''A'', CHR ''C'', CHR ''G'', CHR ''T'', CHR ''N''}"
  by (simp add: acgtn_or_N_def)

lemma toupper_upper_fixed:
  "u \<in> {CHR ''A'', CHR ''C'', CHR ''G'', CHR ''T'', CHR ''N''} \<Longrightarrow> toupper u = u"
  by (auto simp: toupper_def)

lemma sanitize_char_idem:
  "acgtn_or_N (toupper (acgtn_or_N (toupper c))) = acgtn_or_N (toupper c)"
proof -
  have "toupper (acgtn_or_N (toupper c)) = acgtn_or_N (toupper c)"
    by (rule toupper_upper_fixed) (rule acgtn_or_N_range)
  moreover have "acgtn_or_N (acgtn_or_N u) = acgtn_or_N u" for u
    by (simp add: acgtn_or_N_def)
  ultimately show ?thesis by simp
qed

lemma sanitize_idem: "sanitize (sanitize x) = sanitize x"
  by (simp add: sanitize_map sanitize_char_idem)

lemma toupper_letters:
  "map toupper ''abcdefghijklmnopqrstuvwxyz'' = ''ABCDEFGHIJKLMNOPQRSTUVWXYZ''"
  by code_simp

lemma lower_case_codes:
  "char_of ` {97 .. 122 :: nat} = set ''abcdefghijklmnopqrstuvwxyz''"
  by code_simp

lemma toupper_other:
  assumes "c \<notin> set ''abcdefghijklmnopqrstuvwxyz''"
  shows "toupper c = c"
proof -
  have "\<not> (97 \<le> (of_char c :: nat) \<and> (of_char c :: nat) \<le> 122)"
  proof
    assume "97 \<le> (of_char c :: nat) \<and> (of_char c :: nat) \<le> 122"
    then have "(of_char c :: nat) \<in> {97 .. 122}" by simp
    then have "char_of (of_char c :: nat) \<in> char_of ` {97 .. 122 :: nat}" by (rule imageI)
    then have "c \<in> set ''abcdefghijklmnopqrstuvwxyz''"
      by (simp only: lower_case_codes char_of_char)
    with assms show False by contradiction
  qed
  then show ?thesis unfolding toupper_def by (rule if_not_P)
qed

text \<open>
  Claim C2: every byte of the input is replaced by its upper-case form when that form is
  one of A, C, G, T, N, and by N otherwise. The function is total: it has a value, of
  the same length, for every input, the empty string included.
\<close>

theorem sanitize_spec:
  "sanitize x =
     map (\<lambda>c. if toupper c \<in> {CHR ''A'', CHR ''C'', CHR ''G'', CHR ''T'', CHR ''N''}
              then toupper c else CHR ''N'') x
   \<and> length (sanitize x) = length x \<and> sanitize [] = []"
proof -
  have "acgtn_or_N u =
      (if u \<in> {CHR ''A'', CHR ''C'', CHR ''G'', CHR ''T'', CHR ''N''} then u else CHR ''N'')" for u
    by (simp add: acgtn_or_N_def)
  then have "sanitize x =
     map (\<lambda>c. if toupper c \<in> {CHR ''A'', CHR ''C'', CHR ''G'', CHR ''T'', CHR ''N''}
              then toupper c else CHR ''N'') x"
    by (simp only: sanitize_map)
  moreover have "sanitize [] = []" by (simp add: sanitize_def)
  moreover note length_sanitize [of x]
  ultimately show ?thesis by (intro conjI)
qed

theorem sanitize_spec_witness:
  "sanitize ''acgtn xACGTN-u'' = ''ACGTNNNACGTNNN'' \<and> sanitize [] = []"
  using sanitize_spec [of "''acgtn xACGTN-u''"] by code_simp

lemma length_exceeds_sanitize:
  "length_exceeds a (sanitize q) (sanitize s) = length_exceeds a q s"
  by (simp only: length_exceeds_def size_as_int_def length_sanitize)

text \<open>
  Claim C9: sanitisation keeps the length and is idempotent, so the length guard gives the
  same answer on the sanitised strings (where the code applies it) as on the raw ones.
\<close>

theorem sanitize_length_idempotent:
  "length (sanitize x) = length x \<and> sanitize (sanitize x) = sanitize x
   \<and> length_exceeds a (sanitize q) (sanitize s) = length_exceeds a q s"
  by (simp only: length_sanitize sanitize_idem length_exceeds_sanitize simp_thms)

theorem sanitize_length_idempotent_witness:
  "length (sanitize ''acgu'') = 4 \<and> sanitize (sanitize ''acgu'') = ''ACGN''
   \<and> length_exceeds toy_aligner (sanitize ''acgu'') (sanitize ''t'') = False"
  using sanitize_length_idempotent [of "''acgu''" toy_aligner "''acgu''" "''t''"] by code_simp

section \<open>Packed byte count\<close>

lemma ceil_div_nat:
  assumes b: "0 < b"
  shows "ceil_div a b = (a + b - 1) div b"
proof -
  define k where "k = (a + b - 1) div b"
  have up: "a \<le> k * b"
  proof -
    have "a + b - 1 < (k + 1) * b" unfolding k_def
      using b by (metis Suc_eq_plus1 dividend_less_div_times mult.commute mult_Suc add.commute)
    then show ?thesis using b by simp
  qed
  have lo: "k * b < a + b"
  proof -
    have "k * b \<le> a + b - 1" unfolding k_def by simp
    then show ?thesis using b by simp
  qed
  have r1: "real a / real b \<le> real k"
    using up b by (simp add: divide_le_eq flip: of_nat_mult)
  have r2: "real k - 1 < real a / real b"
  proof -
    have "real (k * b) < real (a + b)" using lo by (simp only: of_nat_less_iff)
    then have "(real k - 1) * real b < real a" by (simp add: algebra_simps)
    then show ?thesis using b by (simp add: less_divide_eq)
  qed
  have "\<lceil>real a / real b\<rceil> = int k"
    by (rule ceiling_unique) (use r1 r2 in simp_all)
  then show ?thesis by (simp add: ceil_div_def k_def)
qed

lemma ceil_div_4: "ceil_div a 4 = (a + 3) div 4"
  using ceil_div_nat [of 4 a] by simp

lemma ceil_div_8: "ceil_div a 8 = (a + 7) div 8"
  using ceil_div_nat [of 8 a] by simp

lemma spec_packed_len_nat: "spec_packed_len L = ((L + 3) div 4 + 7) div 8 * 8"
  by (simp only: spec_packed_len_def round_up_to_8_def ceil_div_4 ceil_div_8)

lemma packed_bytes_rounded_unat:
  assumes "unat L \<le> 4294967292"
  shows "unat (packed_bytes_rounded L) = ((unat L + 3) div 4 + 7) div 8 * 8"
proof -
  have a: "unat (L + 3) = unat L + 3"
    using assms by (simp add: unat_word_ariths)
  have b: "unat ((L + 3) div 4) = (unat L + 3) div 4"
    by (simp add: unat_div a)
  have b': "(unat L + 3) div 4 \<le> 1073741823" using assms by simp
  have c: "unat ((L + 3) div 4 + 7) = (unat L + 3) div 4 + 7"
    using b b' by (simp add: unat_word_ariths)
  have d: "unat (((L + 3) div 4 + 7) div 8) = ((unat L + 3) div 4 + 7) div 8"
    by (simp add: unat_div c)
  have d': "((unat L + 3) div 4 + 7) div 8 \<le> 134217728" using b' by simp
  have e: "unat ((((L + 3) div 4 + 7) div 8) * 8) = ((unat L + 3) div 4 + 7) div 8 * 8"
    using d d' by (simp add: unat_word_ariths)
  show ?thesis unfolding packed_bytes_rounded_def Let_def using e by simp
qed

lemma sint_small: "unat (w :: cint) < 2147483648 \<Longrightarrow> sint w = int (unat w)"
proof -
  assume "unat w < 2147483648"
  then have "int (unat w) < 2147483648" by linarith
  then have lt: "uint w < 2 ^ 31" by simp
  have ge: "- (2 ^ 31) \<le> uint w"
    by (rule order_trans [of _ 0]) simp_all
  have "signed_take_bit 31 (uint w) = uint w"
    using ge lt by (rule signed_take_bit_int_eq_self)
  moreover have "sint w = signed_take_bit 31 (uint w)"
    by (simp only: sint_uint) simp
  ultimately show ?thesis by simp
qed

text \<open>
  Up to \<open>L = 2^32 - 4\<close> no step of the lambda wraps, and the \<open>int\<close> it returns is
  \<open>ceil(L/4)\<close> rounded up to the next multiple of 8.
\<close>

theorem packed_bytes_rounded_spec:
  assumes "unat L \<le> 4294967292"
  shows "sint (packed_bytes_rounded L) = int (spec_packed_len (unat L))"
proof -
  have u: "unat (packed_bytes_rounded L) = spec_packed_len (unat L)"
    using assms by (simp only: packed_bytes_rounded_unat spec_packed_len_nat)
  have "spec_packed_len (unat L) \<le> 1073741824"
    using assms unfolding spec_packed_len_nat by simp
  then have "unat (packed_bytes_rounded L) < 2147483648" using u by linarith
  then have "sint (packed_bytes_rounded L) = int (unat (packed_bytes_rounded L))"
    by (rule sint_small)
  then show ?thesis by (simp only: u)
qed

theorem packed_bytes_rounded_at_10:
  "unat (10 :: u32) \<le> 4294967292 \<and> sint (packed_bytes_rounded 10) = 8
     \<and> spec_packed_len 10 = 8"
  using packed_bytes_rounded_spec [of 10] by (simp add: spec_packed_len_nat)

text \<open>
  At \<open>L = 2^32 - 1\<close> the addition \<open>L + 3u\<close> wraps to 2, so the code returns 0, where
  the formula of the specification gives \<open>2^30\<close>.
\<close>

theorem packed_bytes_rounded_wraps_at_top:
  "sint (packed_bytes_rounded 4294967295) = 0
     \<and> spec_packed_len (unat (4294967295 :: u32)) = 1073741824"
  by (simp add: packed_bytes_rounded_def spec_packed_len_nat)

section \<open>The wait loop\<close>

lemma wait_done_pending_step:
  "pending lib (fst r) \<Longrightarrow> wait_done lib r = wait_done lib (fst (gasal_is_aln_async_done lib (fst r)), snd r @ [Is_aln_async_done])"
  by (subst wait_done.simps, cases "gasal_is_aln_async_done lib (fst r)")
    (simp add: call_is_aln_async_done_def pending_def)

lemma wait_done_done_step:
  "\<not> pending lib (fst r) \<Longrightarrow> wait_done lib r = Some (fst (gasal_is_aln_async_done lib (fst r)), snd r @ [Is_aln_async_done])"
  by (subst wait_done.simps, cases "gasal_is_aln_async_done lib (fst r)")
    (simp add: call_is_aln_async_done_def pending_def)

lemma wait_done_finite:
  "(\<forall>i<k. pending lib (polls lib i stor)) \<Longrightarrow> \<not> pending lib (polls lib k stor) \<Longrightarrow>
   wait_done lib (stor, calls) =
     Some (fst (gasal_is_aln_async_done lib (polls lib k stor)),
           calls @ replicate (Suc k) Is_aln_async_done)"
proof (induction k arbitrary: stor calls)
  case 0
  then show ?case by (simp add: wait_done_done_step)
next
  case (Suc k)
  from Suc.prems(1) have p0: "pending lib stor" by (metis polls.simps(1) zero_less_Suc)
  let ?stor = "fst (gasal_is_aln_async_done lib stor)"
  have a: "\<forall>i<k. pending lib (polls lib i ?stor)"
    using Suc.prems(1) by (metis Suc_less_eq polls.simps(2))
  have b: "\<not> pending lib (polls lib k ?stor)" using Suc.prems(2) by simp
  have "wait_done lib (stor, calls) = wait_done lib (?stor, calls @ [Is_aln_async_done])"
    using p0 by (simp add: wait_done_pending_step)
  also have "\<dots> = Some (fst (gasal_is_aln_async_done lib (polls lib k ?stor)),
           (calls @ [Is_aln_async_done]) @ replicate (Suc k) Is_aln_async_done)"
    by (rule Suc.IH [OF a b])
  finally show ?case by (simp add: replicate_app_Cons_same)
qed

lemma wait_done_SomeD:
  fixes lib :: "'x gasal_lib"
  assumes "wait_done lib r = Some y"
  shows "\<exists>k. (\<forall>i<k. pending lib (polls lib i (fst r))) \<and> \<not> pending lib (polls lib k (fst r)) \<and>
       y = (fst (gasal_is_aln_async_done lib (polls lib k (fst r))),
            snd r @ replicate (Suc k) Is_aln_async_done)"
proof -
  define Q where "Q = (\<lambda>(lib :: 'x gasal_lib) (r :: 'x run) (y :: 'x run).
     \<exists>k. (\<forall>i<k. pending lib (polls lib i (fst r))) \<and> \<not> pending lib (polls lib k (fst r)) \<and>
       y = (fst (gasal_is_aln_async_done lib (polls lib k (fst r))),
            snd r @ replicate (Suc k) Is_aln_async_done))"
  have "Q lib r y"
  proof (rule wait_done.raw_induct [where P = Q, OF _ assms])
    fix wd :: "'x gasal_lib \<Rightarrow> 'x run \<Rightarrow> 'x run option" and lib r y
    assume IH: "\<And>l r y. wd l r = Some y \<Longrightarrow> Q l r y"
      and eq: "(case call_is_aln_async_done lib r of
                  (r', rc) \<Rightarrow> if rc = - 1 then wd lib r' else Some r') = Some y"
    let ?r' = "(fst (gasal_is_aln_async_done lib (fst r)), snd r @ [Is_aln_async_done])"
    have body: "call_is_aln_async_done lib r = (?r', snd (gasal_is_aln_async_done lib (fst r)))"
      by (cases "gasal_is_aln_async_done lib (fst r)") (simp add: call_is_aln_async_done_def)
    show "Q lib r y"
    proof (cases "pending lib (fst r)")
      case True
      then have "wd lib ?r' = Some y"
        using eq body by (simp add: pending_def)
      then have "Q lib ?r' y" by (rule IH)
      then obtain k where k: "\<forall>i<k. pending lib (polls lib i (fst ?r'))"
          "\<not> pending lib (polls lib k (fst ?r'))"
          "y = (fst (gasal_is_aln_async_done lib (polls lib k (fst ?r'))),
                snd ?r' @ replicate (Suc k) Is_aln_async_done)"
        unfolding Q_def by blast
      have "\<forall>i<Suc k. pending lib (polls lib i (fst r))"
      proof (intro allI impI)
        fix i assume "i < Suc k"
        then show "pending lib (polls lib i (fst r))"
          using True k(1) by (cases i) simp_all
      qed
      moreover have "\<not> pending lib (polls lib (Suc k) (fst r))" using k(2) by simp
      moreover have "y = (fst (gasal_is_aln_async_done lib (polls lib (Suc k) (fst r))),
                snd r @ replicate (Suc (Suc k)) Is_aln_async_done)"
        using k(3) by (simp add: replicate_app_Cons_same)
      ultimately show ?thesis unfolding Q_def by blast
    next
      case False
      then have "y = ?r'" using eq body by (simp add: pending_def)
      then have "(\<forall>i<0. pending lib (polls lib i (fst r))) \<and> \<not> pending lib (polls lib 0 (fst r)) \<and>
         y = (fst (gasal_is_aln_async_done lib (polls lib 0 (fst r))),
              snd r @ replicate (Suc 0) Is_aln_async_done)"
        using False by simp
      then show ?thesis unfolding Q_def by blast
    qed
  qed
  then show ?thesis unfolding Q_def .
qed

lemma wait_done_never:
  assumes "\<forall>k. pending lib (polls lib k (fst r))"
  shows "wait_done lib r = None"
proof (cases "wait_done lib r")
  case None
  then show ?thesis .
next
  case (Some y)
  then obtain k where "\<not> pending lib (polls lib k (fst r))"
    using wait_done_SomeD by blast
  with assms show ?thesis by blast
qed

section \<open>The method as a whole\<close>

lemma align_raise:
  "length_exceeds a (sanitize q) (sanitize s) \<Longrightarrow> align lib a q s = Some (a, [], Inl LengthExceeded)"
  by (simp add: align_def)

lemma align_accept:
  "\<not> length_exceeds a (sanitize q) (sanitize s) \<Longrightarrow>
   align lib a q s =
     (case wait_done lib (submitted lib a (sanitize q) (sanitize s)) of
        None \<Rightarrow> None
      | Some r \<Rightarrow> Some (a \<lparr> stor_v := fst r \<rparr>, snd r, Inr (extract_slot0 (fst r))))"
  by (simp add: align_def submitted_def)

lemma raises_align: "raises (align lib a q s) \<longleftrightarrow> length_exceeds a (sanitize q) (sanitize s)"
  by (cases "length_exceeds a (sanitize q) (sanitize s)")
    (simp_all add: align_raise align_accept raises_def split: option.splits)

lemma snd_fill_slot0:
  "snd (fill_slot0 lib (stor, calls) q s) =
     calls @ [Host_batch_fill 0 q (of_nat (length q)) QUERY,
              Host_batch_fill 0 s (of_nat (length s)) TARGET,
              Op_fill 0 0 QUERY, Op_fill 0 0 TARGET]"
  by (simp add: fill_slot0_def mark_slot0_def call_host_batch_fill_def call_op_fill_def Let_def
      split: prod.splits)

lemma snd_submitted:
  "snd (submitted lib a q s) =
     [Host_batch_fill 0 q (of_nat (length q)) QUERY,
      Host_batch_fill 0 s (of_nat (length s)) TARGET,
      Op_fill 0 0 QUERY, Op_fill 0 0 TARGET,
      Aln_async
        (packed_bytes_rounded (host_query_batch_lens (fst (fill_slot0 lib (stor_v a, []) q s)) 0))
        (packed_bytes_rounded (host_target_batch_lens (fst (fill_slot0 lib (stor_v a, []) q s)) 0))
        1 (args a)]"
  by (simp add: submitted_def submit_slot0_def call_aln_async_def Let_def snd_fill_slot0)

text \<open>What lines 70 to 80 leave in slot 0, whatever the library does: the count is 1, the
  lengths are those of the two strings handed over, and the offsets are the values the two
  calls of \<open>gasal_host_batch_fill\<close> returned, the first made on the storage with the count
  cleared, the second on the storage the first left.\<close>

lemma mark_slot0_fields:
  "current_n_alns (fst (mark_slot0 lib (stor, calls) q s)) = 1
   \<and> host_query_batch_lens (fst (mark_slot0 lib (stor, calls) q s)) 0 = of_nat (length q)
   \<and> host_target_batch_lens (fst (mark_slot0 lib (stor, calls) q s)) 0 = of_nat (length s)
   \<and> host_query_batch_offsets (fst (mark_slot0 lib (stor, calls) q s)) 0 =
       snd (gasal_host_batch_fill lib (stor \<lparr> current_n_alns := 0 \<rparr>) 0 q (of_nat (length q)) QUERY)
   \<and> host_target_batch_offsets (fst (mark_slot0 lib (stor, calls) q s)) 0 =
       snd (gasal_host_batch_fill lib
              (fst (gasal_host_batch_fill lib (stor \<lparr> current_n_alns := 0 \<rparr>) 0 q
                      (of_nat (length q)) QUERY))
              0 s (of_nat (length s)) TARGET)"
  by (simp add: mark_slot0_def call_host_batch_fill_def Let_def split: prod.splits)

section \<open>The length guard\<close>

lemma sint_size_small:
  assumes "length x < 2147483648"
  shows "sint (size_as_int x) = int (length x)"
proof -
  have u: "unat (size_as_int x) = length x"
    using assms by (simp add: size_as_int_def unat_of_nat)
  then have "unat (size_as_int x) < 2147483648" using assms by simp
  then have "sint (size_as_int x) = int (unat (size_as_int x))" by (rule sint_small)
  then show ?thesis by (simp only: u)
qed

lemma length_exceeds_small:
  assumes "length q < 2147483648" and "length s < 2147483648"
  shows "length_exceeds a q s \<longleftrightarrow>
           sint (max_q a) < int (length q) \<or> sint (max_t a) < int (length s)"
  by (simp only: length_exceeds_def sint_size_small [OF assms(1)] sint_size_small [OF assms(2)])

lemma align_raises_iff_small:
  assumes "length q < 2147483648" and "length s < 2147483648"
  shows "raises (align lib a q s) \<longleftrightarrow>
           sint (max_q a) < int (length q) \<or> sint (max_t a) < int (length s)"
  by (simp only: raises_align length_exceeds_sanitize length_exceeds_small [OF assms])

lemma align_raise_nothing_done:
  assumes "raises (align lib a q s)"
  shows "align lib a q s = Some (a, [], Inl LengthExceeded)"
  using assms by (simp only: raises_align align_raise)

lemma default_limits:
  "max_q (GasalAligner_init p0 stor0 m mm go ge None None) = 2048"
  "max_t (GasalAligner_init p0 stor0 m mm go ge None None) = 8192"
  by (simp_all add: GasalAligner_init_def GasalAligner_ctor_def)

lemma size_as_int_2_31:
  "length x = 2147483648 \<Longrightarrow> sint (size_as_int x) = - 2147483648"
  by (simp add: size_as_int_def)

text \<open>
  Claim C1 says that a query longer than \<open>max_q\<close> is always rejected. The guard compares
  \<open>(int)q.size()\<close>: for a query of \<open>2^31\<close> bytes the cast gives \<open>-2^31\<close>, which is not
  greater than the default limit 2048, so the call is not rejected and goes on to fill and
  submit. (For lengths below \<open>2^31\<close> the guard is exact: \<open>align_raises_iff_small\<close>; and a
  rejected call has made no library call and left the object as it was:
  \<open>align_raise_nothing_done\<close>.)
\<close>

theorem align_accepts_query_of_2_31_bytes:
  "max_q (GasalAligner_init p0 stor0 m mm go ge None None) = 2048
   \<and> length (replicate 2147483648 (CHR ''A'')) = 2147483648
   \<and> \<not> raises (align lib (GasalAligner_init p0 stor0 m mm go ge None None)
                 (replicate 2147483648 (CHR ''A'')) [])"
proof -
  let ?a = "GasalAligner_init p0 stor0 m mm go ge None None"
  let ?q = "replicate 2147483648 (CHR ''A'')"
  have len: "length ?q = 2147483648" by (simp only: length_replicate)
  have q: "sint (size_as_int ?q) = - 2147483648" using len by (rule size_as_int_2_31)
  have s: "sint (size_as_int []) = 0" by (simp add: size_as_int_def)
  have "\<not> length_exceeds ?a ?q []"
    by (simp only: length_exceeds_def q s default_limits) simp
  then have "\<not> raises (align lib ?a ?q [])"
    by (simp only: raises_align length_exceeds_sanitize not_False_eq_True)
  with len default_limits(1) [of p0 stor0 m mm go ge] show ?thesis
    by (intro conjI)
qed

section \<open>The steps of an accepted call\<close>

lemma align_finite:
  assumes acc: "\<not> length_exceeds a (sanitize q) (sanitize s)"
    and pend: "\<forall>i<k. pending lib (polls lib i (fst (submitted lib a (sanitize q) (sanitize s))))"
    and fin: "\<not> pending lib (polls lib k (fst (submitted lib a (sanitize q) (sanitize s))))"
  shows "align lib a q s =
     Some (a \<lparr> stor_v := fst (gasal_is_aln_async_done lib
                               (polls lib k (fst (submitted lib a (sanitize q) (sanitize s))))) \<rparr>,
           snd (submitted lib a (sanitize q) (sanitize s)) @ replicate (Suc k) Is_aln_async_done,
           Inr (extract_slot0 (fst (gasal_is_aln_async_done lib
                               (polls lib k (fst (submitted lib a (sanitize q) (sanitize s))))))))"
proof -
  let ?r = "submitted lib a (sanitize q) (sanitize s)"
  have "wait_done lib (fst ?r, snd ?r) =
     Some (fst (gasal_is_aln_async_done lib (polls lib k (fst ?r))),
           snd ?r @ replicate (Suc k) Is_aln_async_done)"
    using pend fin by (rule wait_done_finite)
  then show ?thesis using acc by (simp add: align_accept)
qed

lemma align_SomeD:
  assumes "align lib a q s = Some (a', calls, Inr p)"
  shows "\<not> length_exceeds a (sanitize q) (sanitize s) \<and>
    (\<exists>k. (\<forall>i<k. pending lib (polls lib i (fst (submitted lib a (sanitize q) (sanitize s))))) \<and>
         \<not> pending lib (polls lib k (fst (submitted lib a (sanitize q) (sanitize s)))) \<and>
         a' = a \<lparr> stor_v := fst (gasal_is_aln_async_done lib
                               (polls lib k (fst (submitted lib a (sanitize q) (sanitize s))))) \<rparr> \<and>
         calls = snd (submitted lib a (sanitize q) (sanitize s)) @ replicate (Suc k) Is_aln_async_done \<and>
         p = extract_slot0 (stor_v a'))"
proof -
  let ?r = "submitted lib a (sanitize q) (sanitize s)"
  have acc: "\<not> length_exceeds a (sanitize q) (sanitize s)"
    using assms by (cases "length_exceeds a (sanitize q) (sanitize s)") (simp_all add: align_raise)
  then obtain y where y: "wait_done lib ?r = Some y"
      and res: "a' = a \<lparr> stor_v := fst y \<rparr>" "calls = snd y" "p = extract_slot0 (fst y)"
    using assms by (auto simp: align_accept split: option.splits)
  from wait_done_SomeD [OF y] obtain k where
      k: "\<forall>i<k. pending lib (polls lib i (fst ?r))" "\<not> pending lib (polls lib k (fst ?r))"
         "y = (fst (gasal_is_aln_async_done lib (polls lib k (fst ?r))),
               snd ?r @ replicate (Suc k) Is_aln_async_done)"
    by blast
  have "a' = a \<lparr> stor_v := fst (gasal_is_aln_async_done lib (polls lib k (fst ?r))) \<rparr>"
    using res(1) k(3) by simp
  moreover have "calls = snd ?r @ replicate (Suc k) Is_aln_async_done"
    using res(2) k(3) by simp
  moreover have "p = extract_slot0 (stor_v a')" using res(1,3) by simp
  ultimately show ?thesis using acc k(1,2) by blast
qed

lemma align_never:
  assumes "\<not> length_exceeds a (sanitize q) (sanitize s)"
    and "\<forall>k. pending lib (polls lib k (fst (submitted lib a (sanitize q) (sanitize s))))"
  shows "align lib a q s = None"
  using assms by (simp add: align_accept wait_done_never)

section \<open>The members read from slot 0\<close>

lemma extract_slot0_fields:
  "extract_slot0 stor =
     \<lparr> score = aln_score (host_res stor) 0,
       q_beg = query_batch_start (host_res stor) 0, q_end = query_batch_end (host_res stor) 0,
       s_beg = target_batch_start (host_res stor) 0, s_end = target_batch_end (host_res stor) 0,
       cigar = raw_cigar_bytes stor (unat (n_cigar_ops (host_res stor) 0)) \<rparr>"
  by (simp add: extract_slot0_def raw_cigar_bytes_def Let_def)

section \<open>The parameters of the alignment\<close>

lemma list_all_submits_with_submitted:
  "list_all (submits_with (args a)) (snd (submitted lib a q s))"
  by (simp add: snd_submitted)

lemma align_keeps_members:
  assumes "align lib a q s = Some (a', calls, out)"
  shows "args a' = args a \<and> max_q a' = max_q a \<and> max_t a' = max_t a \<and> subst a' = subst a
         \<and> list_all (submits_with (args a)) calls"
proof (cases "length_exceeds a (sanitize q) (sanitize s)")
  case True
  then show ?thesis using assms by (simp add: align_raise)
next
  case False
  then obtain y where y: "wait_done lib (submitted lib a (sanitize q) (sanitize s)) = Some y"
      and res: "a' = a \<lparr> stor_v := fst y \<rparr>" "calls = snd y"
    using assms by (auto simp: align_accept split: option.splits)
  from wait_done_SomeD [OF y] obtain k where
    "snd y = snd (submitted lib a (sanitize q) (sanitize s)) @ replicate (Suc k) Is_aln_async_done"
    by auto
  moreover have "list_all (submits_with (args a)) (replicate n Is_aln_async_done)" for n
    by (induction n) simp_all
  ultimately have "list_all (submits_with (args a)) calls"
    using res(2) list_all_submits_with_submitted [of a lib "sanitize q" "sanitize s"]
    by (simp only: list_all_append)
  then show ?thesis using res(1) by simp
qed

lemma align_seq_keeps_members:
  "align_seq lib a jobs = Some (a', calls) \<Longrightarrow>
   args a' = args a \<and> max_q a' = max_q a \<and> max_t a' = max_t a \<and> subst a' = subst a
   \<and> list_all (submits_with (args a)) calls"
proof (induction jobs arbitrary: a a' calls)
  case Nil
  then show ?case by simp
next
  case (Cons qs jobs)
  from Cons.prems obtain a1 calls1 out1 a2 calls2 where
      one: "align lib a (fst qs) (snd qs) = Some (a1, calls1, out1)"
      and rest: "align_seq lib a1 jobs = Some (a2, calls2)"
      and eq: "a' = a2" "calls = calls1 @ calls2"
    by (auto split: option.splits prod.splits)
  from align_keeps_members [OF one] have k1: "args a1 = args a" "max_q a1 = max_q a"
      "max_t a1 = max_t a" "subst a1 = subst a" "list_all (submits_with (args a)) calls1"
    by simp_all
  from Cons.IH [OF rest] have k2: "args a2 = args a1" "max_q a2 = max_q a1"
      "max_t a2 = max_t a1" "subst a2 = subst a1" "list_all (submits_with (args a1)) calls2"
    by simp_all
  show ?case using k1 k2 eq by simp
qed

lemma args_ctor:
  "algo (args (GasalAligner_ctor p0 stor0 m mm go ge mq mt)) = SEMI_GLOBAL"
  "start_pos (args (GasalAligner_ctor p0 stor0 m mm go ge mq mt)) = WITH_TB"
  "semiglobal_skipping_head (args (GasalAligner_ctor p0 stor0 m mm go ge mq mt)) = QUERY"
  "semiglobal_skipping_tail (args (GasalAligner_ctor p0 stor0 m mm go ge mq mt)) = QUERY"
  by (simp_all add: GasalAligner_ctor_def)

text \<open>
  Claim C6: the constructor sets the algorithm to semi-global with traceback and both
  skipping members to \<open>QUERY\<close>; after any sequence of calls of \<open>align\<close> on the object
  (the empty one included) the parameters still have these values, and every submission
  made on the way was handed exactly these parameters.
\<close>

theorem free_end_configuration_fixed:
  assumes "align_seq lib (GasalAligner_ctor p0 stor0 m mm go ge mq mt) jobs = Some (a', calls)"
  shows "algo (args a') = SEMI_GLOBAL \<and> start_pos (args a') = WITH_TB
         \<and> semiglobal_skipping_head (args a') = QUERY
         \<and> semiglobal_skipping_tail (args a') = QUERY
         \<and> list_all (submits_with (args a')) calls"
proof -
  from align_seq_keeps_members [OF assms]
  have "args a' = args (GasalAligner_ctor p0 stor0 m mm go ge mq mt)"
    and "list_all (submits_with (args (GasalAligner_ctor p0 stor0 m mm go ge mq mt))) calls"
    by simp_all
  then show ?thesis by (simp add: args_ctor)
qed

theorem free_end_configuration_fixed_witness:
  "map_option snd (align_seq toy_lib (GasalAligner_ctor toy_params toy_stor 2 (- 1) (- 2) (- 1) 3 8192)
      [(''acgt'', ''ACGT''), (''tttt'', ''ACGT''), (''ca'', ''t'')]) =
     Some [Host_batch_fill 0 ''CA'' 2 QUERY, Host_batch_fill 0 ''T'' 1 TARGET,
           Op_fill 0 0 QUERY, Op_fill 0 0 TARGET,
           Aln_async 8 8 1 \<lparr> algo = SEMI_GLOBAL, start_pos = WITH_TB,
             semiglobal_skipping_head = QUERY, semiglobal_skipping_tail = QUERY \<rparr>,
           Is_aln_async_done, Is_aln_async_done, Is_aln_async_done]
   \<and> map_option (args \<circ> fst) (align_seq toy_lib
        (GasalAligner_ctor toy_params toy_stor 2 (- 1) (- 2) (- 1) 3 8192)
        [(''acgt'', ''ACGT''), (''tttt'', ''ACGT''), (''ca'', ''t'')]) =
     Some \<lparr> algo = SEMI_GLOBAL, start_pos = WITH_TB,
            semiglobal_skipping_head = QUERY, semiglobal_skipping_tail = QUERY \<rparr>"
proof -
  let ?run = "align_seq toy_lib (GasalAligner_ctor toy_params toy_stor 2 (- 1) (- 2) (- 1) 3 8192)
      [(''acgt'', ''ACGT''), (''tttt'', ''ACGT''), (''ca'', ''t'')]"
  have c: "map_option snd ?run =
     Some [Host_batch_fill 0 ''CA'' 2 QUERY, Host_batch_fill 0 ''T'' 1 TARGET,
           Op_fill 0 0 QUERY, Op_fill 0 0 TARGET,
           Aln_async 8 8 1 \<lparr> algo = SEMI_GLOBAL, start_pos = WITH_TB,
             semiglobal_skipping_head = QUERY, semiglobal_skipping_tail = QUERY \<rparr>,
           Is_aln_async_done, Is_aln_async_done, Is_aln_async_done]"
    by code_simp
  then obtain a' calls where run: "?run = Some (a', calls)"
    by (cases ?run) auto
  from free_end_configuration_fixed [OF run]
  have "args a' = \<lparr> algo = SEMI_GLOBAL, start_pos = WITH_TB,
            semiglobal_skipping_head = QUERY, semiglobal_skipping_tail = QUERY \<rparr>"
    by (cases "args a'") simp
  then have "map_option (args \<circ> fst) ?run = Some \<lparr> algo = SEMI_GLOBAL, start_pos = WITH_TB,
            semiglobal_skipping_head = QUERY, semiglobal_skipping_tail = QUERY \<rparr>"
    by (simp only: run option.map comp_apply fst_conv)
  with c show ?thesis by (intro conjI)
qed

section \<open>The edit script that is returned\<close>

text \<open>
  Claim C4, as the code has it: the member \<open>cigar\<close> of the returned \<open>PAlign\<close> is a list of
  bytes, namely the \<open>n_cigar_ops[0]\<close> bytes the library's CIGAR buffer holds from the offset
  \<open>host_query_batch_offsets[0]\<close> on, in the buffer's order and unchanged; the wrapper does
  not decode them into operations and run lengths.
\<close>

theorem align_returns_library_cigar_bytes:
  assumes "align lib a q s = Some (a', calls, Inr p)"
  shows "PAlign.cigar p =
           raw_cigar_bytes (stor_v a') (unat (n_cigar_ops (host_res (stor_v a')) 0))
         \<and> length (PAlign.cigar p) = unat (n_cigar_ops (host_res (stor_v a')) 0)"
proof -
  from align_SomeD [OF assms] have "p = extract_slot0 (stor_v a')" by blast
  then show ?thesis by (simp add: extract_slot0_fields raw_cigar_bytes_def)
qed

theorem align_returns_library_cigar_bytes_witness:
  "returned (align toy_lib toy_aligner ''ACGT'' ''ACGT'') =
     Some \<lparr> score = 8, q_beg = 0, q_end = 3, s_beg = 0, s_end = 3, cigar = [16, 5] \<rparr>
   \<and> map_option (\<lambda>a'. raw_cigar_bytes (stor_v a') (unat (n_cigar_ops (host_res (stor_v a')) 0)))
        (aligner_after (align toy_lib toy_aligner ''ACGT'' ''ACGT'')) = Some [16, 5]"
proof -
  let ?res = "align toy_lib toy_aligner ''ACGT'' ''ACGT''"
  have r: "returned ?res =
     Some \<lparr> score = 8, q_beg = 0, q_end = 3, s_beg = 0, s_end = 3, cigar = [16, 5] \<rparr>"
    by code_simp
  then obtain a' calls p where run: "?res = Some (a', calls, Inr p)"
    by (auto simp: returned_def split: option.splits sum.splits)
  have p: "PAlign.cigar p = [16, 5]" using r by (simp add: run returned_def)
  from align_returns_library_cigar_bytes [OF run]
  have "raw_cigar_bytes (stor_v a') (unat (n_cigar_ops (host_res (stor_v a')) 0)) = [16, 5]"
    using p by simp
  then have "map_option (\<lambda>a'. raw_cigar_bytes (stor_v a') (unat (n_cigar_ops (host_res (stor_v a')) 0)))
        (aligner_after ?res) = Some [16, 5]"
    by (simp only: run aligner_after_def option.case prod.case option.map)
  with r show ?thesis by (intro conjI)
qed

text \<open>
  With the small library, whose submission writes the two bytes 16 and 5 into its CIGAR
  buffer, the call returns exactly these two bytes: the library's encoding is what the
  caller sees.
\<close>

theorem align_exposes_raw_cigar_counterexample:
  "(case align toy_lib toy_aligner ''ACGT'' ''ACGT'' of
      Some (a', calls, Inr p) \<Rightarrow> exposes_raw_cigar (stor_v a') p \<and> PAlign.cigar p = [16, 5]
    | _ \<Rightarrow> False)"
  by code_simp

section \<open>The steps of an accepted call, one by one\<close>

lemma polls_funpow_gen:
  assumes "\<And>st. f st = fst (gasal_is_aln_async_done lib st)"
  shows "polls lib k stor = (f ^^ k) stor"
proof (induction k arbitrary: stor)
  case 0
  show ?case by simp
next
  case (Suc k)
  have "polls lib (Suc k) stor = polls lib k (f stor)" by (simp add: assms)
  also have "\<dots> = (f ^^ k) (f stor)" by (rule Suc.IH)
  also have "\<dots> = (f ^^ Suc k) stor" by (simp only: funpow_Suc_right comp_apply)
  finally show ?case .
qed

lemma polls_funpow:
  "polls lib k stor = ((\<lambda>st. fst (gasal_is_aln_async_done lib st)) ^^ k) stor"
  by (rule polls_funpow_gen) simp

lemma fill_slot0_explicit:
  fixes lib :: "'x gasal_lib"
  assumes fq: "gasal_host_batch_fill lib (stor_v a \<lparr> current_n_alns := 0 \<rparr>) 0
               (sanitize q) (of_nat (length q)) QUERY = (stor2, q_off)"
    and ft: "gasal_host_batch_fill lib stor2 0
               (sanitize s) (of_nat (length s)) TARGET = (stor3, t_off)"
    and st8: "stor8 = stor3
               \<lparr> host_query_batch_offsets := (host_query_batch_offsets stor3)(0 := q_off),
                 host_target_batch_offsets := (host_target_batch_offsets stor3)(0 := t_off),
                 host_query_batch_lens := (host_query_batch_lens stor3)(0 := of_nat (length q)),
                 host_target_batch_lens := (host_target_batch_lens stor3)(0 := of_nat (length s)),
                 current_n_alns := 1 \<rparr>"
    and st10: "stor10 = gasal_op_fill lib (gasal_op_fill lib stor8 0 0 QUERY) 0 0 TARGET"
  shows "fill_slot0 lib (stor_v a, []) (sanitize q) (sanitize s) =
      (stor10, [Host_batch_fill 0 (sanitize q) (of_nat (length q)) QUERY,
               Host_batch_fill 0 (sanitize s) (of_nat (length s)) TARGET,
               Op_fill 0 0 QUERY, Op_fill 0 0 TARGET])"
proof -
  have mark: "mark_slot0 lib (stor_v a, []) (sanitize q) (sanitize s) =
      (stor8, [Host_batch_fill 0 (sanitize q) (of_nat (length q)) QUERY,
               Host_batch_fill 0 (sanitize s) (of_nat (length s)) TARGET])"
    by (simp add: mark_slot0_def call_host_batch_fill_def Let_def length_sanitize fq ft st8)
  show ?thesis
    by (simp add: fill_slot0_def mark call_op_fill_def st10)
qed

lemma submitted_explicit:
  fixes lib :: "'x gasal_lib"
  assumes fill: "fill_slot0 lib (stor_v a, []) (sanitize q) (sanitize s) = (stor10, calls)"
    and qb: "q_bytes = packed_bytes_rounded (host_query_batch_lens stor10 0)"
    and tb: "t_bytes = packed_bytes_rounded (host_target_batch_lens stor10 0)"
    and st11: "stor11 = gasal_aln_async lib stor10 q_bytes t_bytes 1 (args a)"
  shows "submitted lib a (sanitize q) (sanitize s) =
      (stor11, calls @ [Aln_async q_bytes t_bytes 1 (args a)])"
  by (simp add: submitted_def fill submit_slot0_def call_aln_async_def Let_def qb tb st11)

text \<open>
  Claim C5: an accepted call sanitises both inputs, packs them into slot 0 of the batch,
  submits that batch, waits, and returns the members of slot 0 of the result. Step by
  step: the slot count is cleared; the sanitised query and then the sanitised target are
  handed to the library at index 0, each on the storage the step before left; slot 0 of the
  offset tables takes the two values the library returned, slot 0 of the length tables the
  two lengths, and the count becomes 1; \<open>gasal_op_fill\<close> is called twice; the batch is
  submitted with the byte counts of the two lengths then in slot 0 and \<open>n_alns = 1\<close>; the
  first \<open>k\<close> polls answer \<open>-1\<close> and poll \<open>k + 1\<close> does not. The call then returns,
  having made exactly the calls listed, in this order, and its result is read from slot 0
  of the storage the last poll left.
\<close>

theorem align_steps_in_order:
  fixes lib :: "'x gasal_lib"
  assumes acc: "\<not> (sint (max_q a) < sint (of_nat (length q) :: cint)
                   \<or> sint (max_t a) < sint (of_nat (length s) :: cint))"
    and fq: "gasal_host_batch_fill lib (stor_v a \<lparr> current_n_alns := 0 \<rparr>) 0
               (sanitize q) (of_nat (length q)) QUERY = (stor2, q_off)"
    and ft: "gasal_host_batch_fill lib stor2 0
               (sanitize s) (of_nat (length s)) TARGET = (stor3, t_off)"
    and st8: "stor8 = stor3
               \<lparr> host_query_batch_offsets := (host_query_batch_offsets stor3)(0 := q_off),
                 host_target_batch_offsets := (host_target_batch_offsets stor3)(0 := t_off),
                 host_query_batch_lens := (host_query_batch_lens stor3)(0 := of_nat (length q)),
                 host_target_batch_lens := (host_target_batch_lens stor3)(0 := of_nat (length s)),
                 current_n_alns := 1 \<rparr>"
    and st10: "stor10 = gasal_op_fill lib (gasal_op_fill lib stor8 0 0 QUERY) 0 0 TARGET"
    and qb: "q_bytes = packed_bytes_rounded (host_query_batch_lens stor10 0)"
    and tb: "t_bytes = packed_bytes_rounded (host_target_batch_lens stor10 0)"
    and st11: "stor11 = gasal_aln_async lib stor10 q_bytes t_bytes 1 (args a)"
    and pend: "\<forall>i<k. snd (gasal_is_aln_async_done lib
                 (((\<lambda>st. fst (gasal_is_aln_async_done lib st)) ^^ i) stor11)) = - 1"
    and fin: "snd (gasal_is_aln_async_done lib
                 (((\<lambda>st. fst (gasal_is_aln_async_done lib st)) ^^ k) stor11)) \<noteq> - 1"
    and last: "final = fst (gasal_is_aln_async_done lib
                 (((\<lambda>st. fst (gasal_is_aln_async_done lib st)) ^^ k) stor11))"
  shows "align lib a q s =
     Some (a \<lparr> stor_v := final \<rparr>,
           [Host_batch_fill 0 (sanitize q) (of_nat (length q)) QUERY,
            Host_batch_fill 0 (sanitize s) (of_nat (length s)) TARGET,
            Op_fill 0 0 QUERY, Op_fill 0 0 TARGET,
            Aln_async q_bytes t_bytes 1 (args a)]
             @ replicate (Suc k) Is_aln_async_done,
           Inr \<lparr> score = aln_score (host_res final) 0,
                 q_beg = query_batch_start (host_res final) 0,
                 q_end = query_batch_end (host_res final) 0,
                 s_beg = target_batch_start (host_res final) 0,
                 s_end = target_batch_end (host_res final) 0,
                 cigar = map (\<lambda>i. gasal_res_t.cigar (host_res final)
                                     (unat (host_query_batch_offsets final 0) + i))
                             [0..<unat (n_cigar_ops (host_res final) 0)] \<rparr>)"
proof -
  have guard: "\<not> length_exceeds a (sanitize q) (sanitize s)"
    unfolding length_exceeds_def size_as_int_def length_sanitize by (rule acc)
  note fill = fill_slot0_explicit [OF fq ft st8 st10]
  have sub: "submitted lib a (sanitize q) (sanitize s) =
      (stor11, [Host_batch_fill 0 (sanitize q) (of_nat (length q)) QUERY,
               Host_batch_fill 0 (sanitize s) (of_nat (length s)) TARGET,
               Op_fill 0 0 QUERY, Op_fill 0 0 TARGET,
               Aln_async q_bytes t_bytes 1 (args a)])"
    using submitted_explicit [OF fill qb tb st11] by simp
  have pend': "\<forall>i<k. pending lib (polls lib i (fst (submitted lib a (sanitize q) (sanitize s))))"
    using pend by (simp add: sub pending_def polls_funpow)
  have fin': "\<not> pending lib (polls lib k (fst (submitted lib a (sanitize q) (sanitize s))))"
    using fin by (simp add: sub pending_def polls_funpow)
  have final: "fst (gasal_is_aln_async_done lib
                 (polls lib k (fst (submitted lib a (sanitize q) (sanitize s))))) = final"
    by (simp add: sub polls_funpow last)
  show ?thesis
    unfolding align_finite [OF guard pend' fin'] final
    by (simp add: sub extract_slot0_def Let_def)
qed

theorem align_steps_in_order_witness:
  "calls_made (align probe_lib probe_aligner ''acgtx'' ''ACGT'') =
       Some [Host_batch_fill 0 ''ACGTN'' 5 QUERY, Host_batch_fill 0 ''ACGT'' 4 TARGET,
             Op_fill 0 0 QUERY, Op_fill 0 0 TARGET, Aln_async 8 8 1 (args probe_aligner),
             Is_aln_async_done, Is_aln_async_done, Is_aln_async_done]
   \<and> returned (align probe_lib probe_aligner ''acgtx'' ''ACGT'') =
       Some \<lparr> score = 27, q_beg = 0, q_end = 3, s_beg = 0, s_end = 3, cigar = [5, 6] \<rparr>
   \<and> map_option (\<lambda>a'. snd (lib_private (stor_v a')))
         (aligner_after (align probe_lib probe_aligner ''acgtx'' ''ACGT'')) =
       Some [0, 5, 0, 4, 1, 1]"
proof -
  let ?q = "''acgtx''" and ?s = "''ACGT''"
  let ?f1 = "gasal_host_batch_fill probe_lib (stor_v probe_aligner \<lparr> current_n_alns := 0 \<rparr>) 0
               (sanitize ?q) (of_nat (length ?q)) QUERY"
  let ?f2 = "gasal_host_batch_fill probe_lib (fst ?f1) 0
               (sanitize ?s) (of_nat (length ?s)) TARGET"
  let ?poll = "\<lambda>st. fst (gasal_is_aln_async_done probe_lib st)"
  let ?sub = "submitted probe_lib probe_aligner (sanitize ?q) (sanitize ?s)"
  let ?fill = "fill_slot0 probe_lib (stor_v probe_aligner, []) (sanitize ?q) (sanitize ?s)"
  have acc: "\<not> (sint (max_q probe_aligner) < sint (of_nat (length ?q) :: cint)
                \<or> sint (max_t probe_aligner) < sint (of_nat (length ?s) :: cint))"
    by code_simp
  have fq: "?f1 = (fst ?f1, snd ?f1)" by (rule prod.collapse [symmetric])
  have ft: "?f2 = (fst ?f2, snd ?f2)" by (rule prod.collapse [symmetric])
  note fill = fill_slot0_explicit [OF fq ft refl refl]
  note sub = submitted_explicit [OF fill refl refl refl]
  have p0: "snd (gasal_is_aln_async_done probe_lib ((?poll ^^ 0) (fst ?sub))) = - 1"
    by code_simp
  have p1: "snd (gasal_is_aln_async_done probe_lib ((?poll ^^ 1) (fst ?sub))) = - 1"
    by code_simp
  have p2: "snd (gasal_is_aln_async_done probe_lib ((?poll ^^ 2) (fst ?sub))) \<noteq> - 1"
    by code_simp
  have pend: "\<forall>i<2. snd (gasal_is_aln_async_done probe_lib ((?poll ^^ i) (fst ?sub))) = - 1"
  proof (intro allI impI)
    fix i :: nat
    assume "i < 2"
    then consider "i = 0" | "i = 1" by linarith
    then show "snd (gasal_is_aln_async_done probe_lib ((?poll ^^ i) (fst ?sub))) = - 1"
    proof cases
      case 1
      show ?thesis unfolding 1 by (rule p0)
    next
      case 2
      show ?thesis unfolding 2 by (rule p1)
    qed
  qed
  note run = align_steps_in_order
    [OF acc fq ft refl refl refl refl refl pend [unfolded sub fst_conv] p2 [unfolded sub fst_conv] refl]
  have qb: "packed_bytes_rounded (host_query_batch_lens (fst ?fill) 0) = 8" by code_simp
  have tb: "packed_bytes_rounded (host_target_batch_lens (fst ?fill) 0) = 8" by code_simp
  have c: "calls_made (align probe_lib probe_aligner ?q ?s) =
       Some [Host_batch_fill 0 ''ACGTN'' 5 QUERY, Host_batch_fill 0 ''ACGT'' 4 TARGET,
             Op_fill 0 0 QUERY, Op_fill 0 0 TARGET, Aln_async 8 8 1 (args probe_aligner),
             Is_aln_async_done, Is_aln_async_done, Is_aln_async_done]"
    unfolding run calls_made_def option.case prod.case
      qb [unfolded fill fst_conv] tb [unfolded fill fst_conv]
    by code_simp
  have r: "returned (align probe_lib probe_aligner ?q ?s) =
       Some \<lparr> score = 27, q_beg = 0, q_end = 3, s_beg = 0, s_end = 3, cigar = [5, 6] \<rparr>"
    by code_simp
  have o: "map_option (\<lambda>a'. snd (lib_private (stor_v a')))
         (aligner_after (align probe_lib probe_aligner ?q ?s)) = Some [0, 5, 0, 4, 1, 1]"
    by code_simp
  from c r o show ?thesis by (intro conjI)
qed

section \<open>The wait\<close>

lemma fst_submitted:
  "fst (submitted lib a q s) =
     gasal_aln_async lib (fst (fill_slot0 lib (stor_v a, []) q s))
       (packed_bytes_rounded (host_query_batch_lens (fst (fill_slot0 lib (stor_v a, []) q s)) 0))
       (packed_bytes_rounded (host_target_batch_lens (fst (fill_slot0 lib (stor_v a, []) q s)) 0))
       1 (args a)"
  by (simp add: submitted_def submit_slot0_def call_aln_async_def Let_def)

text \<open>
  Claim C8, as the code has it. After the submission a call does nothing but poll: a call
  that returns a result has polled \<open>k + 1\<close> times in a row, the first poll on the storage
  \<open>gasal_aln_async\<close> left and each later one on the storage the poll before left; the
  first \<open>k\<close> polls answered \<open>-1\<close>, the last one did not, and the result is read from
  the storage the last poll left. Between two polls the thread takes no other step: the
  loop body is empty, so the trace holds no yield.
\<close>

theorem align_wait_polls_back_to_back:
  fixes lib :: "'x gasal_lib"
  assumes "align lib a q s = Some (a', calls, Inr p)"
  shows "\<exists>k stor10 q_bytes t_bytes.
      calls = [Host_batch_fill 0 (sanitize q) (of_nat (length q)) QUERY,
               Host_batch_fill 0 (sanitize s) (of_nat (length s)) TARGET,
               Op_fill 0 0 QUERY, Op_fill 0 0 TARGET,
               Aln_async q_bytes t_bytes 1 (args a)]
                @ replicate (Suc k) Is_aln_async_done
    \<and> (\<forall>i<k. snd (gasal_is_aln_async_done lib
                 (((\<lambda>st. fst (gasal_is_aln_async_done lib st)) ^^ i)
                    (gasal_aln_async lib stor10 q_bytes t_bytes 1 (args a)))) = - 1)
    \<and> snd (gasal_is_aln_async_done lib
                 (((\<lambda>st. fst (gasal_is_aln_async_done lib st)) ^^ k)
                    (gasal_aln_async lib stor10 q_bytes t_bytes 1 (args a)))) \<noteq> - 1
    \<and> stor_v a' = fst (gasal_is_aln_async_done lib
                 (((\<lambda>st. fst (gasal_is_aln_async_done lib st)) ^^ k)
                    (gasal_aln_async lib stor10 q_bytes t_bytes 1 (args a))))
    \<and> p = \<lparr> score = aln_score (host_res (stor_v a')) 0,
             q_beg = query_batch_start (host_res (stor_v a')) 0,
             q_end = query_batch_end (host_res (stor_v a')) 0,
             s_beg = target_batch_start (host_res (stor_v a')) 0,
             s_end = target_batch_end (host_res (stor_v a')) 0,
             cigar = map (\<lambda>i. gasal_res_t.cigar (host_res (stor_v a'))
                                 (unat (host_query_batch_offsets (stor_v a') 0) + i))
                         [0..<unat (n_cigar_ops (host_res (stor_v a')) 0)] \<rparr>
    \<and> Thread_yield \<notin> set calls"
proof -
  let ?sub = "submitted lib a (sanitize q) (sanitize s)"
  let ?stor10 = "fst (fill_slot0 lib (stor_v a, []) (sanitize q) (sanitize s))"
  let ?qb = "packed_bytes_rounded (host_query_batch_lens ?stor10 0)"
  let ?tb = "packed_bytes_rounded (host_target_batch_lens ?stor10 0)"
  let ?stor11 = "gasal_aln_async lib ?stor10 ?qb ?tb 1 (args a)"
  let ?poll = "\<lambda>st. fst (gasal_is_aln_async_done lib st)"
  from align_SomeD [OF assms] obtain k where
      k: "\<forall>i<k. pending lib (polls lib i (fst ?sub))"
         "\<not> pending lib (polls lib k (fst ?sub))"
         "a' = a \<lparr> stor_v := fst (gasal_is_aln_async_done lib (polls lib k (fst ?sub))) \<rparr>"
         "calls = snd ?sub @ replicate (Suc k) Is_aln_async_done"
         "p = extract_slot0 (stor_v a')"
    by blast
  have f: "fst ?sub = ?stor11" by (rule fst_submitted)
  have c: "calls = [Host_batch_fill 0 (sanitize q) (of_nat (length q)) QUERY,
               Host_batch_fill 0 (sanitize s) (of_nat (length s)) TARGET,
               Op_fill 0 0 QUERY, Op_fill 0 0 TARGET,
               Aln_async ?qb ?tb 1 (args a)] @ replicate (Suc k) Is_aln_async_done"
    using k(4) by (simp only: snd_submitted length_sanitize)
  have pend: "\<forall>i<k. snd (gasal_is_aln_async_done lib ((?poll ^^ i) ?stor11)) = - 1"
    using k(1) by (simp add: f pending_def polls_funpow)
  have fin: "snd (gasal_is_aln_async_done lib ((?poll ^^ k) ?stor11)) \<noteq> - 1"
    using k(2) by (simp add: f pending_def polls_funpow)
  have st: "stor_v a' = fst (gasal_is_aln_async_done lib ((?poll ^^ k) ?stor11))"
    using k(3) by (simp add: f polls_funpow)
  have res: "p = \<lparr> score = aln_score (host_res (stor_v a')) 0,
             q_beg = query_batch_start (host_res (stor_v a')) 0,
             q_end = query_batch_end (host_res (stor_v a')) 0,
             s_beg = target_batch_start (host_res (stor_v a')) 0,
             s_end = target_batch_end (host_res (stor_v a')) 0,
             cigar = map (\<lambda>i. gasal_res_t.cigar (host_res (stor_v a'))
                                 (unat (host_query_batch_offsets (stor_v a') 0) + i))
                         [0..<unat (n_cigar_ops (host_res (stor_v a')) 0)] \<rparr>"
    using k(5) by (simp add: extract_slot0_def Let_def)
  have ny: "Thread_yield \<notin> set calls" unfolding c by simp
  from c pend fin st res ny show ?thesis by blast
qed

theorem align_wait_polls_back_to_back_witness:
  "returned (align toy_lib toy_aligner ''ACGT'' ''ACGT'') =
     Some \<lparr> score = 8, q_beg = 0, q_end = 3, s_beg = 0, s_end = 3, cigar = [16, 5] \<rparr>
   \<and> map_option (\<lambda>cs. Thread_yield \<in> set cs)
        (calls_made (align toy_lib toy_aligner ''ACGT'' ''ACGT'')) = Some False
   \<and> map_option last (calls_made (align toy_lib toy_aligner ''ACGT'' ''ACGT'')) =
        Some Is_aln_async_done"
proof -
  let ?res = "align toy_lib toy_aligner ''ACGT'' ''ACGT''"
  have r: "returned ?res =
     Some \<lparr> score = 8, q_beg = 0, q_end = 3, s_beg = 0, s_end = 3, cigar = [16, 5] \<rparr>"
    by code_simp
  then obtain a' calls p where run: "?res = Some (a', calls, Inr p)"
    by (auto simp: returned_def split: option.splits sum.splits)
  from align_wait_polls_back_to_back [OF run] obtain k pre where
      c: "calls = pre @ replicate (Suc k) Is_aln_async_done" and ny: "Thread_yield \<notin> set calls"
    by blast
  have "last calls = Is_aln_async_done" unfolding c by simp
  then have l: "map_option last (calls_made ?res) = Some Is_aln_async_done"
    by (simp only: run calls_made_def option.case prod.case option.map)
  have y: "map_option (\<lambda>cs. Thread_yield \<in> set cs) (calls_made ?res) = Some False"
    using ny by (simp only: run calls_made_def option.case prod.case option.map)
  from r y l show ?thesis by (intro conjI)
qed

text \<open>
  A backend that is pending for two polls and then done: the call polls three times in a
  row, with no yield between two polls.
\<close>

theorem wait_polls_without_yield_counterexample:
  "calls_made (align toy_lib toy_aligner ''ACGT'' ''ACGT'') =
     Some [Host_batch_fill 0 ''ACGT'' 4 QUERY, Host_batch_fill 0 ''ACGT'' 4 TARGET,
           Op_fill 0 0 QUERY, Op_fill 0 0 TARGET, Aln_async 8 8 1 (args toy_aligner),
           Is_aln_async_done, Is_aln_async_done, Is_aln_async_done]
   \<and> map_option yields_between_polls (calls_made (align toy_lib toy_aligner ''ACGT'' ''ACGT''))
       = Some False"
  by code_simp

text \<open>The same for any number \<open>n\<close> of pending polls: the wait polls \<open>n + 1\<close> times in a
  row.\<close>

lemma polls_toy:
  "i \<le> n \<Longrightarrow> polls toy_lib i (stor \<lparr> lib_private := n \<rparr>) = stor \<lparr> lib_private := n - i \<rparr>"
proof (induction i arbitrary: n)
  case 0
  show ?case by simp
next
  case (Suc i)
  then have n: "n \<noteq> 0" "i \<le> n - 1" by simp_all
  have "fst (gasal_is_aln_async_done toy_lib (stor \<lparr> lib_private := n \<rparr>)) =
          stor \<lparr> lib_private := n - 1 \<rparr>"
    using n(1) by (simp add: toy_lib_def)
  then have "polls toy_lib (Suc i) (stor \<lparr> lib_private := n \<rparr>) =
          polls toy_lib i (stor \<lparr> lib_private := n - 1 \<rparr>)"
    by simp
  also have "\<dots> = stor \<lparr> lib_private := n - 1 - i \<rparr>" by (rule Suc.IH [OF n(2)])
  finally show ?case by simp
qed

lemma pending_toy: "pending toy_lib stor \<longleftrightarrow> lib_private stor \<noteq> 0"
  by (simp add: pending_def toy_lib_def)

lemma wait_done_toy_any_length:
  "wait_done toy_lib (stor \<lparr> lib_private := n \<rparr>, calls) =
     Some (stor \<lparr> lib_private := 0 \<rparr>, calls @ replicate (Suc n) Is_aln_async_done)"
proof -
  have pend: "\<forall>i<n. pending toy_lib (polls toy_lib i (stor \<lparr> lib_private := n \<rparr>))"
    by (simp add: polls_toy pending_toy)
  have last: "polls toy_lib n (stor \<lparr> lib_private := n \<rparr>) = stor \<lparr> lib_private := 0 \<rparr>"
    by (simp add: polls_toy)
  have fin: "\<not> pending toy_lib (polls toy_lib n (stor \<lparr> lib_private := n \<rparr>))"
    by (simp add: last pending_toy)
  have "fst (gasal_is_aln_async_done toy_lib (stor \<lparr> lib_private := 0 \<rparr>)) =
          stor \<lparr> lib_private := 0 \<rparr>"
    by (simp add: toy_lib_def)
  then show ?thesis
    unfolding wait_done_finite [OF pend fin] last by simp
qed

section \<open>The byte count of a length the guard lets through\<close>

lemma toy_fill_slot0_lens:
  "host_query_batch_lens (fst (fill_slot0 toy_lib r q s)) 0 = of_nat (length q)"
  "host_target_batch_lens (fst (fill_slot0 toy_lib r q s)) 0 = of_nat (length s)"
  by (simp_all add: fill_slot0_def mark_slot0_def call_host_batch_fill_def call_op_fill_def
      toy_lib_def Let_def)

lemma toy_submitted_pending:
  "fst (submitted toy_lib a q s) = (fst (submitted toy_lib a q s)) \<lparr> lib_private := 2 \<rparr>"
  by (simp add: fst_submitted toy_lib_def)

lemma sanitize_replicate_A: "sanitize (replicate n (CHR ''A'')) = replicate n (CHR ''A'')"
proof -
  have "acgtn_or_N (toupper (CHR ''A'')) = CHR ''A''" by code_simp
  then show ?thesis by (simp only: sanitize_map map_replicate)
qed

lemma size_as_int_2_32_minus_1:
  "length x = 4294967295 \<Longrightarrow> sint (size_as_int x) = - 1"
  by (simp add: size_as_int_def)

text \<open>
  Claim C3 says that the byte count computed for a sequence of length \<open>L\<close> is \<open>ceil(L/4)\<close>
  rounded up to a multiple of 8, for every \<open>L\<close> (so does the comment in the lambda). A
  query of \<open>2^32 - 1\<close> bytes passes the guard with the default limits (its size converts to
  the \<open>int\<close> \<open>-1\<close>), its length \<open>2^32 - 1\<close> is written to slot 0, and the sum \<open>L + 3u\<close>
  wraps: the call submits a query byte count of 0, where the formula gives \<open>2^30\<close>.
\<close>

theorem packed_bytes_wrap_at_accepted_length:
  "\<not> raises (align lib (GasalAligner_init p0 stor0 m mm go ge None None)
              (replicate 4294967295 (CHR ''A'')) [])
   \<and> calls_made (align toy_lib toy_aligner (replicate 4294967295 (CHR ''A'')) []) =
       Some [Host_batch_fill 0 (replicate 4294967295 (CHR ''A'')) 4294967295 QUERY,
             Host_batch_fill 0 [] 0 TARGET,
             Op_fill 0 0 QUERY, Op_fill 0 0 TARGET,
             Aln_async 0 0 1 (args toy_aligner),
             Is_aln_async_done, Is_aln_async_done, Is_aln_async_done]
   \<and> sint (packed_bytes_rounded 4294967295) = 0
   \<and> spec_packed_len (length (replicate 4294967295 (CHR ''A''))) = 1073741824"
proof -
  let ?Q = "replicate 4294967295 (CHR ''A'')"
  let ?a = "GasalAligner_init p0 stor0 m mm go ge None None"
  have len: "length ?Q = 4294967295" by (simp only: length_replicate)
  have q: "sint (size_as_int ?Q) = - 1" using len by (rule size_as_int_2_32_minus_1)
  have e: "sint (size_as_int []) = 0" by (simp add: size_as_int_def)
  have g: "\<not> length_exceeds a' ?Q []" if "max_q a' = 2048" "max_t a' = 8192" for a' :: "'y GasalAligner"
    by (simp only: length_exceeds_def q e that) simp
  have "\<not> length_exceeds ?a ?Q []" by (rule g) (rule default_limits)+
  then have nr: "\<not> raises (align lib ?a ?Q [])"
    by (simp only: raises_align length_exceeds_sanitize not_False_eq_True)
  have gt: "\<not> length_exceeds toy_aligner (sanitize ?Q) (sanitize [])"
    unfolding length_exceeds_sanitize toy_aligner_def by (rule g) (rule default_limits)+
  let ?sub = "submitted toy_lib toy_aligner (sanitize ?Q) (sanitize [])"
  have w: "wait_done toy_lib ?sub =
      Some ((fst ?sub) \<lparr> lib_private := 0 \<rparr>, snd ?sub @ replicate (Suc 2) Is_aln_async_done)"
    using wait_done_toy_any_length [where stor = "fst ?sub" and n = 2 and calls = "snd ?sub"]
    by (simp only: toy_submitted_pending [symmetric] prod.collapse)
  have sn: "snd ?sub =
     [Host_batch_fill 0 ?Q 4294967295 QUERY, Host_batch_fill 0 [] 0 TARGET,
      Op_fill 0 0 QUERY, Op_fill 0 0 TARGET, Aln_async 0 0 1 (args toy_aligner)]"
  proof -
    have s0: "sanitize [] = []" by (simp add: sanitize_def)
    have l0: "(of_nat (length ?Q) :: u32) = 4294967295" by (simp only: len) simp
    have pq: "packed_bytes_rounded (4294967295 :: u32) = 0" by (simp add: packed_bytes_rounded_def)
    have pt: "packed_bytes_rounded (0 :: u32) = 0" by (simp add: packed_bytes_rounded_def)
    show ?thesis
      by (simp only: snd_submitted toy_fill_slot0_lens sanitize_replicate_A s0 l0 pq pt
          list.size semiring_1_class.of_nat_0)
  qed
  have c: "calls_made (align toy_lib toy_aligner ?Q []) =
       Some [Host_batch_fill 0 ?Q 4294967295 QUERY, Host_batch_fill 0 [] 0 TARGET,
             Op_fill 0 0 QUERY, Op_fill 0 0 TARGET, Aln_async 0 0 1 (args toy_aligner),
             Is_aln_async_done, Is_aln_async_done, Is_aln_async_done]"
    by (simp only: align_accept [OF gt] w option.case calls_made_def prod.case snd_conv sn
        append.simps replicate.simps numeral_2_eq_2)
  have p: "sint (packed_bytes_rounded 4294967295) = 0" by (simp add: packed_bytes_rounded_def)
  have f: "spec_packed_len (length ?Q) = 1073741824"
    by (simp only: len spec_packed_len_nat) simp
  from nr c p f show ?thesis by (intro conjI)
qed

end
